theory Spec2Isabelle
  imports Complex_Main "HOL-Library.Word"
begin

section \<open>Strings and numbers of the host language\<close>

text \<open>
  The page is TypeScript (\<^verbatim>\<open>src/frontend/src/app/admin/page.tsx\<close>). A string of
  the language is a sequence of 16-bit code units; its literals are written with
  \<open>str\<close>, which maps each ASCII character to its code unit. The en dash (line 91)
  and the bullet (line 67) that the markup contains are single code units outside
  ASCII.
\<close>

type_synonym jschar = "16 word"
type_synonym jsstring = "jschar list"

definition str :: "string \<Rightarrow> jsstring" where
  "str s = map (\<lambda>c. of_nat (of_char c)) s"

definition EN_DASH :: jschar where
  "EN_DASH = 0x2013"

definition BULLET :: jschar where
  "BULLET = 0x2022"

text \<open>
  A value declared \<^verbatim>\<open>number\<close> is an IEEE double. A finite one is given by its
  exact value, a rational (the rationals that are doubles are the ones that occur);
  the negative zero, the two infinities and NaN are values of their own.

  \<open>Number_toString\<close> is the text the language gives a number. It is determined
  here for the integers of magnitude below \<open>2^53\<close>, each of which is a double and
  is written as its decimal expansion, and for the four special values. For every
  other number (a fraction, or a magnitude from \<open>2^53\<close> on, where the language
  writes the shortest digits that read back as the same double) it is \<open>None\<close>:
  not determined here.
\<close>

datatype number = Finite rat | NegZero | NaN | PosInfinity | NegInfinity

definition digit_char :: "nat \<Rightarrow> jschar" where
  "digit_char d = of_nat (48 + d)"

fun nat_digits :: "nat \<Rightarrow> jsstring" where
  "nat_digits n = (if n < 10 then [digit_char n] else nat_digits (n div 10) @ [digit_char (n mod 10)])"

declare nat_digits.simps [simp del]

definition int_digits :: "int \<Rightarrow> jsstring" where
  "int_digits n = (if n < 0 then str ''-'' @ nat_digits (nat (- n)) else nat_digits (nat n))"

fun Number_toString :: "number \<Rightarrow> jsstring option" where
  "Number_toString (Finite q) =
     (if q = of_int \<lfloor>q\<rfloor> \<and> \<bar>q\<bar> < 2 ^ 53 then Some (int_digits \<lfloor>q\<rfloor>) else None)"
| "Number_toString NegZero = Some (str ''0'')"
| "Number_toString NaN = Some (str ''NaN'')"
| "Number_toString PosInfinity = Some (str ''Infinity'')"
| "Number_toString NegInfinity = Some (str ''-Infinity'')"

declare Number_toString.simps [simp del]

section \<open>Errors\<close>

text \<open>
  Every \<^verbatim>\<open>throw\<close> of the page and of the library calls it makes is a value:
  \<open>Error msg\<close> is \<^verbatim>\<open>new Error(msg)\<close>, the other two are the built-in error
  classes raised by \<^verbatim>\<open>JSON.parse\<close>, by \<^verbatim>\<open>fetch\<close> and by a property read
  on \<^verbatim>\<open>null\<close> or a call of something that is not a function.
\<close>

datatype error = Error jsstring | SyntaxError | TypeError

section \<open>\<^verbatim>\<open>JSON.parse\<close>\<close>

text \<open>
  The values \<^verbatim>\<open>JSON.parse\<close> can return. A number keeps the text it was written
  with; an object keeps its members in the order of the text, duplicates included
  (a property read takes the last one).
\<close>

datatype jvalue =
    JNull
  | JBool bool
  | JNumber jsstring
  | JString jsstring
  | JArray "jvalue list"
  | JObject "(jsstring \<times> jvalue) list"

datatype token =
    LBracket | RBracket | LBrace | RBrace | Colon | Comma
  | Scalar jvalue
  | Key_or_String jsstring

definition is_ws :: "jschar \<Rightarrow> bool" where
  "is_ws c = (c = 0x09 \<or> c = 0x0A \<or> c = 0x0D \<or> c = 0x20)"

definition is_digit :: "jschar \<Rightarrow> bool" where
  "is_digit c = (0x30 \<le> c \<and> c \<le> 0x39)"

definition hex_val :: "jschar \<Rightarrow> nat option" where
  "hex_val c =
     (if 0x30 \<le> c \<and> c \<le> 0x39 then Some (unat c - 0x30)
      else if 0x41 \<le> c \<and> c \<le> 0x46 then Some (unat c - 0x41 + 10)
      else if 0x61 \<le> c \<and> c \<le> 0x66 then Some (unat c - 0x61 + 10)
      else None)"

definition hex4 :: "jschar \<Rightarrow> jschar \<Rightarrow> jschar \<Rightarrow> jschar \<Rightarrow> jschar option" where
  "hex4 a b c d =
     (case (hex_val a, hex_val b, hex_val c, hex_val d) of
        (Some h3, Some h2, Some h1, Some h0) \<Rightarrow> Some (of_nat (((h3 * 16 + h2) * 16 + h1) * 16 + h0))
      | _ \<Rightarrow> None)"

definition escape :: "jschar \<Rightarrow> jschar option" where
  "escape c =
     (if c = 0x22 then Some 0x22
      else if c = 0x5C then Some 0x5C
      else if c = 0x2F then Some 0x2F
      else if c = 0x62 then Some 0x08
      else if c = 0x66 then Some 0x0C
      else if c = 0x6E then Some 0x0A
      else if c = 0x72 then Some 0x0D
      else if c = 0x74 then Some 0x09
      else None)"

text \<open>
  \<open>lex_escape cs\<close> reads what follows a backslash inside a string literal: the
  code unit the escape stands for and the text after the escape.
\<close>

definition lex_escape :: "jsstring \<Rightarrow> (jschar \<times> jsstring) option" where
  "lex_escape cs =
     (case cs of
        [] \<Rightarrow> None
      | e # cs1 \<Rightarrow>
          if e = 0x75 then
            (case cs1 of
               a # b # c # d # cs2 \<Rightarrow>
                 (case hex4 a b c d of None \<Rightarrow> None | Some u \<Rightarrow> Some (u, cs2))
             | _ \<Rightarrow> None)
          else
            (case escape e of None \<Rightarrow> None | Some x \<Rightarrow> Some (x, cs1)))"

lemma lex_escape_shorter:
  assumes "lex_escape cs = Some ur"
  shows "length (snd ur) < length cs"
proof (cases cs)
  case Nil
  with assms show ?thesis by (simp add: lex_escape_def)
next
  case (Cons e cs1)
  show ?thesis
  proof (cases "e = 0x75")
    case False
    with assms Cons show ?thesis
      by (auto simp: lex_escape_def split: option.splits)
  next
    case True
    with assms Cons obtain a b c d cs2 where "cs1 = a # b # c # d # cs2"
      by (auto simp: lex_escape_def split: list.splits)
    with assms Cons True show ?thesis
      by (auto simp: lex_escape_def split: option.splits)
  qed
qed

text \<open>
  \<open>lex_string acc cs\<close> reads a string literal whose opening quote has been
  consumed: the decoded string and the text after the closing quote. A control
  character, an unknown escape or the end of the text inside the literal is an error.
\<close>

function lex_string :: "jsstring \<Rightarrow> jsstring \<Rightarrow> (jsstring \<times> jsstring) option" where
  "lex_string acc [] = None"
| "lex_string acc (c # cs) =
     (if c = 0x22 then Some (rev acc, cs)
      else if c = 0x5C then
        (case lex_escape cs of
           None \<Rightarrow> None
         | Some ur \<Rightarrow> lex_string (fst ur # acc) (snd ur))
      else if c < 0x20 then None
      else lex_string (c # acc) cs)"
  by pat_completeness auto

termination
proof (relation "measure (\<lambda>(acc, cs). length cs)")
  show "wf (measure (\<lambda>(acc :: jsstring, cs :: jsstring). length cs))"
    by simp
next
  fix acc :: jsstring and c :: jschar and cs :: jsstring and ur
  assume "lex_escape cs = Some ur"
  then have "length (snd ur) < length cs"
    by (rule lex_escape_shorter)
  then show "((fst ur # acc, snd ur), (acc, c # cs)) \<in> measure (\<lambda>(acc, cs). length cs)"
    by simp
next
  fix acc :: jsstring and c :: jschar and cs :: jsstring
  show "((c # acc, cs), (acc, c # cs)) \<in> measure (\<lambda>(acc, cs). length cs)"
    by simp
qed

lemma lex_string_shorter:
  "lex_string acc cs = Some sr \<Longrightarrow> length (snd sr) < length cs"
proof (induction acc cs rule: lex_string.induct)
  case (1 acc)
  then show ?case by simp
next
  case (2 acc c cs)
  show ?case
  proof (cases "c = 0x22")
    case True
    with "2.prems" show ?thesis by auto
  next
    case quote: False
    show ?thesis
    proof (cases "c = 0x5C")
      case True
      with quote "2.prems" obtain ur
        where ur: "lex_escape cs = Some ur" "lex_string (fst ur # acc) (snd ur) = Some sr"
        by (auto split: option.splits)
      from "2.IH"(1) [OF quote True ur] lex_escape_shorter [OF ur(1)]
      show ?thesis by simp
    next
      case False
      with quote "2.prems" have c: "\<not> c < 0x20" and r: "lex_string (c # acc) cs = Some sr"
        by (auto split: if_splits)
      from "2.IH"(2) [OF quote False c r] show ?thesis by simp
    qed
  qed
qed

text \<open>
  \<open>lex_number cs\<close> reads the longest number at the head of \<open>cs\<close>:
  an optional minus, \<open>0\<close> or a digit sequence without leading zero, an optional
  fraction, an optional exponent.
\<close>

definition lex_digits :: "jsstring \<Rightarrow> (jsstring \<times> jsstring) option" where
  "lex_digits cs =
     (let ds = takeWhile is_digit cs
      in if ds = [] then None else Some (ds, dropWhile is_digit cs))"

definition lex_int :: "jsstring \<Rightarrow> (jsstring \<times> jsstring) option" where
  "lex_int cs =
     (case cs of
        [] \<Rightarrow> None
      | c # cs1 \<Rightarrow> if c = 0x30 then Some ([c], cs1) else lex_digits cs)"

definition lex_frac :: "jsstring \<Rightarrow> (jsstring \<times> jsstring) option" where
  "lex_frac cs =
     (case cs of
        [] \<Rightarrow> Some ([], cs)
      | c # cs1 \<Rightarrow>
          if c = 0x2E then
            (case lex_digits cs1 of None \<Rightarrow> None | Some (ds, r) \<Rightarrow> Some (c # ds, r))
          else Some ([], cs))"

definition lex_exp :: "jsstring \<Rightarrow> (jsstring \<times> jsstring) option" where
  "lex_exp cs =
     (case cs of
        [] \<Rightarrow> Some ([], cs)
      | c # cs1 \<Rightarrow>
          if c = 0x65 \<or> c = 0x45 then
            (case cs1 of
               [] \<Rightarrow> None
             | s # cs2 \<Rightarrow>
                 if s = 0x2B \<or> s = 0x2D then
                   (case lex_digits cs2 of None \<Rightarrow> None | Some (ds, r) \<Rightarrow> Some (c # s # ds, r))
                 else
                   (case lex_digits cs1 of None \<Rightarrow> None | Some (ds, r) \<Rightarrow> Some (c # ds, r)))
          else Some ([], cs))"

definition lex_number :: "jsstring \<Rightarrow> (jsstring \<times> jsstring) option" where
  "lex_number cs =
     (let (sign, cs0) = (case cs of
                           [] \<Rightarrow> ([], cs)
                         | c # cs1 \<Rightarrow> if c = 0x2D then ([c], cs1) else ([], cs))
      in case lex_int cs0 of
           None \<Rightarrow> None
         | Some (i, r1) \<Rightarrow>
             (case lex_frac r1 of
                None \<Rightarrow> None
              | Some (f, r2) \<Rightarrow>
                  (case lex_exp r2 of
                     None \<Rightarrow> None
                   | Some (e, r3) \<Rightarrow> Some (sign @ i @ f @ e, r3))))"

lemma lex_digits_shorter:
  "lex_digits cs = Some dr \<Longrightarrow> length (snd dr) < length cs"
  unfolding lex_digits_def Let_def
  by (cases cs) (auto split: if_splits simp: less_Suc_eq_le length_dropWhile_le)

lemma lex_int_shorter:
  "lex_int cs = Some dr \<Longrightarrow> length (snd dr) < length cs"
  unfolding lex_int_def
  by (cases cs) (auto split: if_splits dest: lex_digits_shorter)

lemma lex_frac_shorter:
  "lex_frac cs = Some dr \<Longrightarrow> length (snd dr) \<le> length cs"
  unfolding lex_frac_def
  by (cases cs) (auto split: if_splits option.splits dest!: lex_digits_shorter)

lemma lex_exp_shorter:
  "lex_exp cs = Some dr \<Longrightarrow> length (snd dr) \<le> length cs"
  unfolding lex_exp_def
  by (cases cs; cases "tl cs") (auto split: if_splits option.splits dest!: lex_digits_shorter)

lemma lex_number_shorter:
  assumes "lex_number cs = Some nr"
  shows "length (snd nr) < length cs"
proof -
  define cs0 where "cs0 = (case cs of [] \<Rightarrow> cs | c # cs1 \<Rightarrow> if c = 0x2D then cs1 else cs)"
  have le: "length cs0 \<le> length cs"
    by (cases cs) (simp_all add: cs0_def)
  from assms obtain i f e where
    i: "lex_int cs0 = Some i" and f: "lex_frac (snd i) = Some f" and
    e: "lex_exp (snd f) = Some e" and r: "snd nr = snd e"
    unfolding lex_number_def cs0_def
    by (cases cs) (auto split: if_splits option.splits)
  from lex_int_shorter [OF i] lex_frac_shorter [OF f] lex_exp_shorter [OF e] le r
  show ?thesis by simp
qed

text \<open>
  \<open>lex_token cs\<close> reads one token at the head of \<open>cs\<close>, which does not start
  with white space and is not empty.
\<close>

definition lex_literal :: "string \<Rightarrow> jvalue \<Rightarrow> jsstring \<Rightarrow> (token \<times> jsstring) option" where
  "lex_literal w v cs =
     (if take (length w) cs = str w then Some (Scalar v, drop (length w) cs) else None)"

lemma lex_literal_shorter:
  "w \<noteq> [] \<Longrightarrow> lex_literal w v cs = Some tr \<Longrightarrow> length (snd tr) < length cs"
  unfolding lex_literal_def str_def
  by (cases cs; cases w) (auto split: if_splits)

definition lex_token :: "jsstring \<Rightarrow> (token \<times> jsstring) option" where
  "lex_token cs =
     (case cs of
        [] \<Rightarrow> None
      | c # cs1 \<Rightarrow>
          if c = 0x5B then Some (LBracket, cs1)
          else if c = 0x5D then Some (RBracket, cs1)
          else if c = 0x7B then Some (LBrace, cs1)
          else if c = 0x7D then Some (RBrace, cs1)
          else if c = 0x3A then Some (Colon, cs1)
          else if c = 0x2C then Some (Comma, cs1)
          else if c = 0x22 then
            (case lex_string [] cs1 of
               None \<Rightarrow> None
             | Some sr \<Rightarrow> Some (Key_or_String (fst sr), snd sr))
          else if c = 0x2D \<or> is_digit c then
            (case lex_number cs of
               None \<Rightarrow> None
             | Some (n, r) \<Rightarrow> Some (Scalar (JNumber n), r))
          else if c = 0x6E then lex_literal ''null'' JNull cs
          else if c = 0x74 then lex_literal ''true'' (JBool True) cs
          else if c = 0x66 then lex_literal ''false'' (JBool False) cs
          else None)"

lemma lex_token_shorter:
  assumes "lex_token cs = Some tr"
  shows "length (snd tr) < length cs"
proof (cases cs)
  case Nil
  with assms show ?thesis by (simp add: lex_token_def)
next
  case (Cons c cs1)
  consider
      (punct) "snd tr = cs1"
    | (string) sr where "lex_string [] cs1 = Some sr" "snd tr = snd sr"
    | (number) nr where "lex_number cs = Some nr" "snd tr = snd nr"
    | (null) "lex_literal ''null'' JNull cs = Some tr"
    | (true) "lex_literal ''true'' (JBool True) cs = Some tr"
    | (false) "lex_literal ''false'' (JBool False) cs = Some tr"
    using assms unfolding lex_token_def Cons
    by (simp split: if_splits option.splits) auto
  then show ?thesis
  proof cases
    case punct
    with Cons show ?thesis by simp
  next
    case string
    with Cons lex_string_shorter [of "[]" cs1 sr] show ?thesis by simp
  next
    case number
    with lex_number_shorter [of cs nr] show ?thesis by simp
  next
    case null
    then show ?thesis by (rule lex_literal_shorter [rotated]) simp
  next
    case true
    then show ?thesis by (rule lex_literal_shorter [rotated]) simp
  next
    case false
    then show ?thesis by (rule lex_literal_shorter [rotated]) simp
  qed
qed


text \<open>
  \<open>tokens cs\<close> splits the whole text into tokens, skipping the white space
  (tab, line feed, carriage return, space) around them.
\<close>

function tokens :: "jsstring \<Rightarrow> token list option" where
  "tokens cs =
     (case dropWhile is_ws cs of
        [] \<Rightarrow> Some []
      | c # cs1 \<Rightarrow>
          (case lex_token (c # cs1) of
             None \<Rightarrow> None
           | Some tr \<Rightarrow>
               (case tokens (snd tr) of None \<Rightarrow> None | Some ts \<Rightarrow> Some (fst tr # ts))))"
  by pat_completeness auto

termination
proof (relation "measure length")
  show "wf (measure (length :: jsstring \<Rightarrow> nat))"
    by simp
next
  fix cs :: jsstring and c cs1 tr
  assume d: "dropWhile is_ws cs = c # cs1" and l: "lex_token (c # cs1) = Some tr"
  have "length (snd tr) < length (c # cs1)"
    using l by (rule lex_token_shorter)
  also have "length (c # cs1) \<le> length cs"
    using length_dropWhile_le [of is_ws cs] by (simp only: d)
  finally show "(snd tr, cs) \<in> measure length"
    by simp
qed

declare tokens.simps [simp del]

text \<open>
  The grammar over the tokens, as a machine with a stack of the containers that
  are open. \<open>Value b\<close> expects a value (or, when \<open>b\<close>, the bracket closing an
  array just opened); \<open>Key b\<close> expects a member name (or, when \<open>b\<close>, the brace
  closing an object just opened).
\<close>

datatype frame =
    ArrayFrame "jvalue list"
  | ObjectFrame "(jsstring \<times> jvalue) list"
  | KeyFrame jsstring

datatype mode = Value bool | Key bool | WantColon | AfterValue | Finished jvalue

fun deliver :: "jvalue \<Rightarrow> frame list \<Rightarrow> (mode \<times> frame list) option" where
  "deliver v [] = Some (Finished v, [])"
| "deliver v (ArrayFrame xs # st) = Some (AfterValue, ArrayFrame (xs @ [v]) # st)"
| "deliver v (KeyFrame k # ObjectFrame ms # st) = Some (AfterValue, ObjectFrame (ms @ [(k, v)]) # st)"
| "deliver v _ = None"

fun parse_step :: "mode \<Rightarrow> frame list \<Rightarrow> token \<Rightarrow> (mode \<times> frame list) option" where
  "parse_step (Value b) st (Scalar v) = deliver v st"
| "parse_step (Value b) st (Key_or_String s) = deliver (JString s) st"
| "parse_step (Value b) st LBracket = Some (Value True, ArrayFrame [] # st)"
| "parse_step (Value b) st LBrace = Some (Key True, ObjectFrame [] # st)"
| "parse_step (Value True) (ArrayFrame xs # st) RBracket = deliver (JArray xs) st"
| "parse_step (Key b) st (Key_or_String k) = Some (WantColon, KeyFrame k # st)"
| "parse_step (Key True) (ObjectFrame ms # st) RBrace = deliver (JObject ms) st"
| "parse_step WantColon st Colon = Some (Value False, st)"
| "parse_step AfterValue (ArrayFrame xs # st) Comma = Some (Value False, ArrayFrame xs # st)"
| "parse_step AfterValue (ObjectFrame ms # st) Comma = Some (Key False, ObjectFrame ms # st)"
| "parse_step AfterValue (ArrayFrame xs # st) RBracket = deliver (JArray xs) st"
| "parse_step AfterValue (ObjectFrame ms # st) RBrace = deliver (JObject ms) st"
| "parse_step _ _ _ = None"

fun parse_tokens :: "mode \<Rightarrow> frame list \<Rightarrow> token list \<Rightarrow> jvalue option" where
  "parse_tokens m st [] = (case m of Finished v \<Rightarrow> Some v | _ \<Rightarrow> None)"
| "parse_tokens m st (t # ts) =
     (case parse_step m st t of
        None \<Rightarrow> None
      | Some ms \<Rightarrow> parse_tokens (fst ms) (snd ms) ts)"

definition JSON_parse :: "jsstring \<Rightarrow> error + jvalue" where
  "JSON_parse text =
     (case tokens text of
        None \<Rightarrow> Inl SyntaxError
      | Some ts \<Rightarrow>
          (case parse_tokens (Value False) [] ts of
             None \<Rightarrow> Inl SyntaxError
           | Some v \<Rightarrow> Inr v))"


section \<open>The types the page declares\<close>

record TeamMember =
  name :: jsstring
  designation :: jsstring
  department :: jsstring
  city :: jsstring
  state :: jsstring
  mobile :: jsstring
  email :: jsstring

record hackathon_registration =
  id' :: number
  registration_id :: jsstring
  project_title :: jsstring
  team_name :: jsstring
  team_size :: number
  institution_name :: jsstring
  problem_domain :: jsstring
  agree_to_rules :: bool
  bonafide_file :: jsstring
  ppt_file :: jsstring
  demo_video_url :: jsstring
  github_repo_link :: jsstring
  members :: jsstring
  submitted_at :: jsstring
  user_id :: "number option"

record ApiResponse =
  hackathon_registration :: "hackathon_registration list"
  totalUsers :: number

section \<open>The markup the page returns\<close>

text \<open>
  The page returns a tree of elements. An element has a tag, the value of its
  \<^verbatim>\<open>key\<close> attribute if it has one, its other attributes, and its children. A
  child is an element, a string (literal text of the markup or a field declared
  \<^verbatim>\<open>string\<close>), a number, the value of an expression over parsed JSON (\<open>None\<close>
  is \<^verbatim>\<open>undefined\<close>), or the array an inner \<^verbatim>\<open>map\<close> returns.
\<close>

datatype node =
    Element string "number option" "(string \<times> jsstring) list" "node list"
  | Text jsstring
  | Num number
  | Expr "jvalue option"
  | Items "node list"

section \<open>The network\<close>

text \<open>
  \<^verbatim>\<open>fetch\<close> is the page's only effect. The world holds the requests sent so far
  and the network, which decides how each request is answered from the requests
  sent up to and including it. A response carries its status and what
  \<^verbatim>\<open>res.json()\<close> settles to: the payload, typed as the page declares it, or the
  error of a body that is not JSON. \<^verbatim>\<open>res.ok\<close> holds for the statuses 200 to 299.
\<close>

record request =
  url :: jsstring
  cache :: jsstring

record response =
  status :: nat
  json :: "error + ApiResponse"

datatype fetch_outcome = Rejected | Resolved response

record world =
  network :: "request list \<Rightarrow> fetch_outcome"
  sent :: "request list"

definition ok :: "response \<Rightarrow> bool" where
  "ok res = (200 \<le> status res \<and> status res \<le> 299)"

definition fetch :: "request \<Rightarrow> world \<Rightarrow> (error + response) \<times> world" where
  "fetch rq w =
     (let log = sent w @ [rq]
      in (case network w log of Rejected \<Rightarrow> Inl TypeError | Resolved res \<Rightarrow> Inr res,
          w\<lparr>sent := log\<rparr>))"

section \<open>The page\<close>

text \<open>
  \<open>Get v k\<close> is the property read \<^verbatim>\<open>v.k\<close> on a parsed value, for the three names
  the page reads (\<^verbatim>\<open>name\<close>, \<^verbatim>\<open>designation\<close>, \<^verbatim>\<open>email\<close>), which no built-in
  prototype of a JSON value defines: on \<^verbatim>\<open>null\<close> it throws, on an object it is the
  member of that name written last, on anything else it is \<^verbatim>\<open>undefined\<close>.
\<close>

definition Get :: "jvalue \<Rightarrow> jsstring \<Rightarrow> error + jvalue option" where
  "Get v k =
     (case v of
        JNull \<Rightarrow> Inl TypeError
      | JObject ms \<Rightarrow> Inr (map_of (rev ms) k)
      | _ \<Rightarrow> Inr None)"

text \<open>
  \<^verbatim>\<open>Array.prototype.map\<close>: the callback gets the element and its index; the first
  callback that throws ends the loop.
\<close>

fun Array_map_from :: "nat \<Rightarrow> ('a \<Rightarrow> nat \<Rightarrow> error + 'b) \<Rightarrow> 'a list \<Rightarrow> error + 'b list" where
  "Array_map_from i f [] = Inr []"
| "Array_map_from i f (x # xs) =
     (case f x i of
        Inl e \<Rightarrow> Inl e
      | Inr y \<Rightarrow>
          (case Array_map_from (Suc i) f xs of
             Inl e \<Rightarrow> Inl e
           | Inr ys \<Rightarrow> Inr (y # ys)))"

definition Array_map :: "('a \<Rightarrow> nat \<Rightarrow> error + 'b) \<Rightarrow> 'a list \<Rightarrow> error + 'b list" where
  "Array_map f xs = Array_map_from 0 f xs"

text \<open>The callback of \<^verbatim>\<open>members.map\<close> (lines 89 to 93): one list entry per member.\<close>

definition Page_member :: "jvalue \<Rightarrow> nat \<Rightarrow> error + node" where
  "Page_member m index =
     (case Get m (str ''name'') of
        Inl e \<Rightarrow> Inl e
      | Inr n \<Rightarrow>
          (case Get m (str ''designation'') of
             Inl e \<Rightarrow> Inl e
           | Inr d \<Rightarrow>
               (case Get m (str ''email'') of
                  Inl e \<Rightarrow> Inl e
                | Inr em \<Rightarrow>
                    Inr (Element ''li'' (Some (Finite (of_nat index))) []
                          [Expr n, Text (str '' (''), Expr d,
                           Text (str '') '' @ [EN_DASH] @ str '' ''), Expr em]))))"

text \<open>
  \<^verbatim>\<open>members.map(...)\<close> on the parsed value, which the page takes for an array
  without a check: a value that is not an array has no \<^verbatim>\<open>map\<close> to call.
\<close>

definition members_map :: "jvalue \<Rightarrow> error + node list" where
  "members_map ms =
     (case ms of
        JArray xs \<Rightarrow> Array_map Page_member xs
      | _ \<Rightarrow> Inl TypeError)"

text \<open>
  The card the callback of \<^verbatim>\<open>data.hackathon_registration.map\<close> returns
  (lines 62 to 111), given the list entries \<^verbatim>\<open>members.map\<close> has produced.
\<close>

definition Page_card :: "hackathon_registration \<Rightarrow> node list \<Rightarrow> node" where
  "Page_card item lis =
     Element ''div'' (Some (id' item))
       [(''className'', str ''border rounded-lg p-4 space-y-3'')]
       [Element ''div'' None []
          [Element ''h2'' None [(''className'', str ''text-xl font-semibold'')]
             [Text (project_title item)],
           Element ''p'' None [(''className'', str ''text-sm text-gray-600'')]
             [Text (registration_id item), Text (str '' '' @ [BULLET] @ str '' ''),
              Text (problem_domain item)]],
        Element ''div'' None [(''className'', str ''grid grid-cols-2 gap-2 text-sm'')]
          [Element ''p'' None []
             [Element ''b'' None [] [Text (str ''Team:'')], Text (str '' ''),
              Text (team_name item)],
           Element ''p'' None []
             [Element ''b'' None [] [Text (str ''Size:'')], Text (str '' ''),
              Num (team_size item)],
           Element ''p'' None []
             [Element ''b'' None [] [Text (str ''Institution:'')], Text (str '' ''),
              Text (institution_name item)],
           Element ''p'' None []
             [Element ''b'' None [] [Text (str ''Submitted:'')], Text (str '' ''),
              Text (submitted_at item)]],
        Element ''div'' None []
          [Element ''h3'' None [(''className'', str ''font-semibold'')]
             [Text (str ''Members'')],
           Element ''ul'' None [(''className'', str ''list-disc list-inside text-sm'')]
             [Items lis]],
        Element ''div'' None
          [(''className'', str ''flex gap-4 text-sm text-blue-600 underline'')]
          [Element ''a'' None [(''href'', ppt_file item), (''target'', str ''_blank'')]
             [Text (str ''PPT'')],
           Element ''a'' None [(''href'', bonafide_file item), (''target'', str ''_blank'')]
             [Text (str ''Bonafide'')],
           Element ''a'' None [(''href'', github_repo_link item), (''target'', str ''_blank'')]
             [Text (str ''GitHub'')],
           Element ''a'' None [(''href'', demo_video_url item), (''target'', str ''_blank'')]
             [Text (str ''Demo'')]]]"

text \<open>
  The callback of \<^verbatim>\<open>data.hackathon_registration.map\<close> (lines 59 to 112): it
  parses the members of one registration and returns its card. It takes no index.
\<close>

definition Page_item :: "hackathon_registration \<Rightarrow> nat \<Rightarrow> error + node" where
  "Page_item item index =
     (case JSON_parse (members item) of
        Inl e \<Rightarrow> Inl e
      | Inr ms \<Rightarrow>
          (case members_map ms of
             Inl e \<Rightarrow> Inl e
           | Inr lis \<Rightarrow> Inr (Page_card item lis)))"

text \<open>The heading (lines 55 to 57).\<close>

definition Page_heading :: "ApiResponse \<Rightarrow> node" where
  "Page_heading data =
     Element ''h1'' None [(''className'', str ''text-2xl font-bold'')]
       [Text (str ''Admin Dashboard (''), Num (totalUsers data), Text (str '')'')]"

text \<open>The markup returned for a payload (lines 53 to 114).\<close>

definition Page_markup :: "ApiResponse \<Rightarrow> error + node" where
  "Page_markup data =
     (case Array_map Page_item (hackathon_registration data) of
        Inl e \<Rightarrow> Inl e
      | Inr cards \<Rightarrow>
          Inr (Element ''div'' None [(''className'', str ''p-6 space-y-6'')]
                [Page_heading data, Items cards]))"

text \<open>
  The address requested: the template literal turns a base address that is not
  set into the text \<^verbatim>\<open>undefined\<close>.
\<close>

definition Page_request :: "jsstring option \<Rightarrow> request" where
  "Page_request API_BASE_URL =
     \<lparr>url = (case API_BASE_URL of None \<Rightarrow> str ''undefined'' | Some base \<Rightarrow> base)
              @ str ''/api/admin/all-data'',
      cache = str ''no-store''\<rparr>"

definition Page :: "jsstring option \<Rightarrow> world \<Rightarrow> (error + node) \<times> world" where
  "Page API_BASE_URL w =
     (let fetched = fetch (Page_request API_BASE_URL) w
      in case fst fetched of
           Inl e \<Rightarrow> (Inl e, snd fetched)
         | Inr res \<Rightarrow>
             if \<not> ok res then (Inl (Error (str ''Failed to fetch admin data'')), snd fetched)
             else
               (case json res of
                  Inl e \<Rightarrow> (Inl e, snd fetched)
                | Inr data \<Rightarrow> (Page_markup data, snd fetched)))"

section \<open>Reading the markup\<close>

text \<open>
  What a reader of the rendered page sees. \<open>textContent\<close> is the text of a node:
  strings as they are, numbers as \<open>Number_toString\<close> writes them, nothing for
  \<^verbatim>\<open>undefined\<close>, \<^verbatim>\<open>null\<close> and booleans; it is \<open>None\<close> where a child is a
  number whose text is not determined here, or a parsed number, array or object.
\<close>

fun concat_texts :: "jsstring option list \<Rightarrow> jsstring option" where
  "concat_texts [] = Some []"
| "concat_texts (None # ts) = None"
| "concat_texts (Some s # ts) = (case concat_texts ts of None \<Rightarrow> None | Some t \<Rightarrow> Some (s @ t))"

fun textContent :: "node \<Rightarrow> jsstring option" where
  "textContent (Element t k ps cs) = concat_texts (map textContent cs)"
| "textContent (Text s) = Some s"
| "textContent (Num n) = Number_toString n"
| "textContent (Expr v) =
     (case v of
        None \<Rightarrow> Some []
      | Some JNull \<Rightarrow> Some []
      | Some (JBool b) \<Rightarrow> Some []
      | Some (JString s) \<Rightarrow> Some s
      | Some _ \<Rightarrow> None)"
| "textContent (Items cs) = concat_texts (map textContent cs)"

fun tag :: "node \<Rightarrow> string option" where
  "tag (Element t k ps cs) = Some t"
| "tag _ = None"

fun key :: "node \<Rightarrow> number option" where
  "key (Element t k ps cs) = k"
| "key _ = None"

fun attr :: "string \<Rightarrow> node \<Rightarrow> jsstring option" where
  "attr a (Element t k ps cs) = map_of ps a"
| "attr a _ = None"

fun children :: "node \<Rightarrow> node list" where
  "children (Element t k ps cs) = cs"
| "children (Items cs) = cs"
| "children _ = []"

text \<open>All elements of a tree, the root first, in document order.\<close>

fun elements :: "node \<Rightarrow> node list" where
  "elements (Element t k ps cs) = Element t k ps cs # concat (map elements cs)"
| "elements (Items cs) = concat (map elements cs)"
| "elements _ = []"

definition tagged :: "string \<Rightarrow> node \<Rightarrow> node list" where
  "tagged t n = filter (\<lambda>e. tag e = Some t) (elements n)"

text \<open>
  The heading of the page is its \<^verbatim>\<open>h1\<close> elements; the registration cards are
  the entries of the arrays among the children of the root; the member entries
  and the links of a card are its \<^verbatim>\<open>li\<close> and \<^verbatim>\<open>a\<close> elements.
\<close>

definition headings :: "node \<Rightarrow> node list" where
  "headings markup = tagged ''h1'' markup"

definition registration_cards :: "node \<Rightarrow> node list" where
  "registration_cards markup =
     concat (map (\<lambda>c. case c of Items xs \<Rightarrow> xs | _ \<Rightarrow> []) (children markup))"

definition member_entries :: "node \<Rightarrow> node list" where
  "member_entries c = tagged ''li'' c"

definition links :: "node \<Rightarrow> node list" where
  "links c = tagged ''a'' c"

text \<open>
  The value of a field of the summary: the children that follow the bold label
  \<open>lbl\<close> in a paragraph of the card.
\<close>

fun labelled :: "jsstring \<Rightarrow> node \<Rightarrow> node list option" where
  "labelled lbl (Element t k ps (Element t' k' ps' cs' # rest)) =
     (if t = ''p'' \<and> t' = ''b'' \<and> cs' = [Text lbl] then Some rest else None)"
| "labelled lbl _ = None"

definition summary_field :: "jsstring \<Rightarrow> node \<Rightarrow> node list list" where
  "summary_field lbl c = List.map_filter (labelled lbl) (elements c)"

section \<open>The data model of the payload\<close>

text \<open>
  The page asserts the parsed members to be \<^verbatim>\<open>TeamMember[]\<close> without a check.
  \<open>as_TeamMember v\<close> reads a parsed value as the interface declares it: an object
  whose seven properties are strings. A members text is valid when it parses to an
  array of such objects, a snapshot when the members of all its records are.
\<close>

definition string_prop :: "(jsstring \<times> jvalue) list \<Rightarrow> string \<Rightarrow> jsstring option" where
  "string_prop ms k = (case map_of (rev ms) (str k) of Some (JString s) \<Rightarrow> Some s | _ \<Rightarrow> None)"

definition as_TeamMember :: "jvalue \<Rightarrow> TeamMember option" where
  "as_TeamMember v =
     (case v of
        JObject ms \<Rightarrow>
          (case string_prop ms ''name'' of None \<Rightarrow> None | Some n \<Rightarrow>
           case string_prop ms ''designation'' of None \<Rightarrow> None | Some ds \<Rightarrow>
           case string_prop ms ''department'' of None \<Rightarrow> None | Some dp \<Rightarrow>
           case string_prop ms ''city'' of None \<Rightarrow> None | Some c \<Rightarrow>
           case string_prop ms ''state'' of None \<Rightarrow> None | Some st \<Rightarrow>
           case string_prop ms ''mobile'' of None \<Rightarrow> None | Some mb \<Rightarrow>
           case string_prop ms ''email'' of None \<Rightarrow> None | Some em \<Rightarrow>
             Some \<lparr>name = n, designation = ds, department = dp, city = c, state = st,
                   mobile = mb, email = em\<rparr>)
      | _ \<Rightarrow> None)"

definition decoded_members :: "jsstring \<Rightarrow> TeamMember list option" where
  "decoded_members text =
     (case JSON_parse text of
        Inr (JArray js) \<Rightarrow>
          (if list_all (\<lambda>j. as_TeamMember j \<noteq> None) js
           then Some (map (\<lambda>j. the (as_TeamMember j)) js) else None)
      | _ \<Rightarrow> None)"

definition valid_snapshot :: "ApiResponse \<Rightarrow> bool" where
  "valid_snapshot data =
     list_all (\<lambda>item. decoded_members (members item) \<noteq> None) (hackathon_registration data)"

section \<open>Example data\<close>

text \<open>
  A record with one member, a record with no member and no link, a record whose
  members text is not JSON, two payloads made of them, and a world whose network
  answers every request with the same response.
\<close>

definition Asha :: TeamMember where
  "Asha = \<lparr>name = str ''Asha'', designation = str ''Lead'', department = str ''CS'',
            city = str ''Pune'', state = str ''MH'', mobile = str ''9999999999'',
            email = str ''asha@example.com''\<rparr>"

definition example_registration :: hackathon_registration where
  \<open>example_registration =
     \<lparr>id' = Finite 7, registration_id = str ''HX-007'', project_title = str ''Rain gauge'',
      team_name = str ''Monsoon'', team_size = Finite 3, institution_name = str ''PSG Tech'',
      problem_domain = str ''Climate'', agree_to_rules = True,
      bonafide_file = str ''/files/b7.pdf'', ppt_file = str ''/files/p7.pptx'',
      demo_video_url = str ''https://video.example/7'',
      github_repo_link = str ''https://git.example/7'',
      members = str ''[{"name":"Asha","designation":"Lead","department":"CS","city":"Pune","state":"MH","mobile":"9999999999","email":"asha@example.com"}]'',
      submitted_at = str ''2025-01-05T10:00:00Z'', user_id = Some (Finite 12)\<rparr>\<close>

definition unlinked_registration :: hackathon_registration where
  "unlinked_registration =
     example_registration\<lparr>bonafide_file := [], ppt_file := [], demo_video_url := [],
                          github_repo_link := [], members := str ''[]''\<rparr>"

definition broken_registration :: hackathon_registration where
  "broken_registration = example_registration\<lparr>id' := Finite 9, members := str ''Asha, Ravi''\<rparr>"

definition example_payload :: ApiResponse where
  "example_payload =
     \<lparr>hackathon_registration = [example_registration, unlinked_registration\<lparr>id' := Finite 3\<rparr>],
      totalUsers = Finite 42\<rparr>"

definition broken_payload :: ApiResponse where
  "broken_payload =
     \<lparr>hackathon_registration = [example_registration, broken_registration, unlinked_registration],
      totalUsers = Finite 3\<rparr>"

definition example_response :: "nat \<Rightarrow> response" where
  "example_response s = \<lparr>status = s, json = Inr example_payload\<rparr>"

definition example_world :: "response \<Rightarrow> world" where
  "example_world res = \<lparr>network = (\<lambda>log. Resolved res), sent = []\<rparr>"

section \<open>Properties of the array loop\<close>

lemma Array_map_from_Inr:
  assumes "Array_map_from i f xs = Inr ys"
  shows "length ys = length xs \<and> (\<forall>j < length xs. f (xs ! j) (i + j) = Inr (ys ! j))"
  using assms
proof (induction xs arbitrary: i ys)
  case Nil
  then show ?case by simp
next
  case (Cons x xs)
  from Cons.prems obtain y ys' where
    y: "f x i = Inr y" and r: "Array_map_from (Suc i) f xs = Inr ys'" and ys: "ys = y # ys'"
    by (auto split: sum.splits)
  from Cons.IH [OF r] y show ?case
    by (simp add: ys All_less_Suc2)
qed

lemma Array_map_from_first_failure:
  assumes "\<forall>j < length pre. \<exists>y. f (pre ! j) (i + j) = Inr y"
    and "f x (i + length pre) = Inl e"
  shows "Array_map_from i f (pre @ x # post) = Inl e"
  using assms
proof (induction pre arbitrary: i)
  case Nil
  then show ?case by simp
next
  case (Cons p pre)
  from Cons.prems(1) obtain y where y: "f p i = Inr y" by fastforce
  have "\<forall>j < length pre. \<exists>y. f (pre ! j) (Suc i + j) = Inr y"
    using Cons.prems(1) by fastforce
  moreover have "f x (Suc i + length pre) = Inl e"
    using Cons.prems(2) by simp
  ultimately have "Array_map_from (Suc i) f (pre @ x # post) = Inl e"
    by (rule Cons.IH)
  with y show ?case by simp
qed

lemma Array_map_from_failure:
  assumes "j < length xs" and "f (xs ! j) (i + j) = Inl e"
  shows "\<exists>e'. Array_map_from i f xs = Inl e'"
proof (cases "Array_map_from i f xs")
  case (Inl e')
  then show ?thesis by blast
next
  case (Inr ys)
  with assms show ?thesis by (auto dest: Array_map_from_Inr)
qed

lemma Array_map_from_total:
  assumes "\<forall>j < length xs. \<exists>y. f (xs ! j) (i + j) = Inr y"
  shows "\<exists>ys. Array_map_from i f xs = Inr ys"
  using assms
proof (induction xs arbitrary: i)
  case Nil
  then show ?case by simp
next
  case (Cons x xs)
  from Cons.prems obtain y where y: "f x i = Inr y" by fastforce
  have "\<forall>j < length xs. \<exists>y. f (xs ! j) (Suc i + j) = Inr y"
    using Cons.prems by fastforce
  then obtain ys where "Array_map_from (Suc i) f xs = Inr ys"
    using Cons.IH by blast
  with y show ?case by simp
qed

section \<open>The shape of a card\<close>

lemma Page_member_shape:
  assumes "Page_member m i = Inr l"
  shows "\<exists>n d e. l = Element ''li'' (Some (Finite (of_nat i))) []
           [Expr n, Text (str '' (''), Expr d, Text (str '') '' @ [EN_DASH] @ str '' ''), Expr e]"
  using assms unfolding Page_member_def
  by (auto split: sum.splits)

lemma Page_member_TeamMember:
  assumes "as_TeamMember m = Some t"
  shows "Page_member m i = Inr (Element ''li'' (Some (Finite (of_nat i))) []
           [Expr (Some (JString (name t))), Text (str '' (''),
            Expr (Some (JString (designation t))),
            Text (str '') '' @ [EN_DASH] @ str '' ''), Expr (Some (JString (email t)))])"
proof -
  from assms obtain ms where m: "m = JObject ms"
    by (cases m) (simp_all add: as_TeamMember_def)
  from assms have
    "map_of (rev ms) (str ''name'') = Some (JString (name t))"
    "map_of (rev ms) (str ''designation'') = Some (JString (designation t))"
    "map_of (rev ms) (str ''email'') = Some (JString (email t))"
    unfolding m as_TeamMember_def string_prop_def
    by (auto split: option.splits jvalue.splits)
  then show ?thesis
    by (simp add: Page_member_def Get_def m)
qed

lemma members_map_Inr:
  assumes "members_map ms = Inr lis"
  shows "\<exists>js. ms = JArray js \<and> length lis = length js \<and>
           (\<forall>j < length js. Page_member (js ! j) j = Inr (lis ! j))"
proof -
  from assms obtain js where js: "ms = JArray js" and a: "Array_map_from 0 Page_member js = Inr lis"
    by (cases ms) (simp_all add: members_map_def Array_map_def)
  from Array_map_from_Inr [OF a] js show ?thesis by simp
qed

lemma members_map_entries:
  assumes "members_map ms = Inr lis"
  shows "\<forall>l \<in> set lis. elements l = [l] \<and> tag l = Some ''li'' \<and> labelled lbl l = None"
proof
  fix l assume "l \<in> set lis"
  then obtain j where j: "j < length lis" "l = lis ! j"
    by (auto simp: in_set_conv_nth)
  from members_map_Inr [OF assms] j obtain m where "Page_member m j = Inr l"
    by auto
  from Page_member_shape [OF this]
  show "elements l = [l] \<and> tag l = Some ''li'' \<and> labelled lbl l = None"
    by auto
qed

lemma concat_elements_leaves:
  "\<forall>l \<in> set lis. elements l = [l] \<Longrightarrow> concat (map elements lis) = lis"
  by (induction lis) simp_all

lemma member_entries_Page_card:
  assumes "members_map ms = Inr lis"
  shows "member_entries (Page_card item lis) = lis"
proof -
  from members_map_entries [OF assms]
  have l: "\<forall>l \<in> set lis. elements l = [l]" and t: "\<forall>l \<in> set lis. tag l = Some ''li''"
    by auto
  from t have "filter (\<lambda>e. tag e = Some ''li'') lis = lis"
    by (simp add: filter_id_conv)
  then show ?thesis
    by (simp add: member_entries_def tagged_def Page_card_def concat_elements_leaves [OF l])
qed

lemma links_Page_card:
  assumes "members_map ms = Inr lis"
  shows "links (Page_card item lis) =
           [Element ''a'' None [(''href'', ppt_file item), (''target'', str ''_blank'')]
              [Text (str ''PPT'')],
            Element ''a'' None [(''href'', bonafide_file item), (''target'', str ''_blank'')]
              [Text (str ''Bonafide'')],
            Element ''a'' None [(''href'', github_repo_link item), (''target'', str ''_blank'')]
              [Text (str ''GitHub'')],
            Element ''a'' None [(''href'', demo_video_url item), (''target'', str ''_blank'')]
              [Text (str ''Demo'')]]"
proof -
  from members_map_entries [OF assms]
  have l: "\<forall>l \<in> set lis. elements l = [l]" and t: "\<forall>l \<in> set lis. tag l = Some ''li''"
    by auto
  from t have "filter (\<lambda>e. tag e = Some ''a'') lis = []"
    by (auto simp: filter_empty_conv)
  then show ?thesis
    by (simp add: links_def tagged_def Page_card_def concat_elements_leaves [OF l])
qed

lemma headings_Page_card:
  assumes "members_map ms = Inr lis"
  shows "tagged ''h1'' (Page_card item lis) = []"
proof -
  from members_map_entries [OF assms]
  have l: "\<forall>l \<in> set lis. elements l = [l]" and t: "\<forall>l \<in> set lis. tag l = Some ''li''"
    by auto
  from t have "filter (\<lambda>e. tag e = Some ''h1'') lis = []"
    by (auto simp: filter_empty_conv)
  then show ?thesis
    by (simp add: tagged_def Page_card_def concat_elements_leaves [OF l])
qed

lemma summary_Size_Page_card:
  assumes "members_map ms = Inr lis"
  shows "summary_field (str ''Size:'') (Page_card item lis) = [[Text (str '' ''), Num (team_size item)]]"
proof -
  from members_map_entries [OF assms, of "str ''Size:''"]
  have l: "\<forall>l \<in> set lis. elements l = [l]" and t: "\<forall>l \<in> set lis. labelled (str ''Size:'') l = None"
    by auto
  from t have "filter (\<lambda>e. labelled (str ''Size:'') e \<noteq> None) lis = []"
    by (auto simp: filter_empty_conv)
  then show ?thesis
    by (simp add: summary_field_def map_filter_def Page_card_def concat_elements_leaves [OF l] str_def)
qed

lemma Page_item_Inr:
  assumes "Page_item item i = Inr c"
  shows "\<exists>ms lis. JSON_parse (members item) = Inr ms \<and> members_map ms = Inr lis \<and>
           c = Page_card item lis"
  using assms unfolding Page_item_def
  by (auto split: sum.splits)

section \<open>Cards of records with well-formed members\<close>

lemmas JSON_eval =
  JSON_parse_def tokens.simps str_def is_ws_def is_digit_def lex_token_def lex_literal_def
  lex_number_def lex_int_def lex_digits_def lex_frac_def lex_exp_def
  lex_escape_def escape_def hex4_def hex_val_def

lemma decoded_members_Some:
  assumes "decoded_members text = Some tms"
  shows "\<exists>js. JSON_parse text = Inr (JArray js) \<and> length js = length tms \<and>
           (\<forall>j < length js. as_TeamMember (js ! j) = Some (tms ! j))"
proof -
  from assms obtain js where
    js: "JSON_parse text = Inr (JArray js)" and
    all: "list_all (\<lambda>j. as_TeamMember j \<noteq> None) js" and
    tms: "tms = map (\<lambda>j. the (as_TeamMember j)) js"
    unfolding decoded_members_def
    by (auto split: sum.splits jvalue.splits if_splits)
  from all have "\<forall>j < length js. as_TeamMember (js ! j) = Some (tms ! j)"
    by (auto simp: tms list_all_length)
  with js tms show ?thesis by simp
qed

lemma Page_item_decoded:
  assumes "decoded_members (members item) = Some tms"
  shows "\<exists>lis. Page_item item i = Inr (Page_card item lis) \<and>
           member_entries (Page_card item lis) = lis \<and> length lis = length tms \<and>
           (\<forall>j < length tms. lis ! j =
              Element ''li'' (Some (Finite (of_nat j))) []
                [Expr (Some (JString (name (tms ! j)))), Text (str '' (''),
                 Expr (Some (JString (designation (tms ! j)))),
                 Text (str '') '' @ [EN_DASH] @ str '' ''),
                 Expr (Some (JString (email (tms ! j))))])"
proof -
  from decoded_members_Some [OF assms] obtain js where
    js: "JSON_parse (members item) = Inr (JArray js)" and len: "length js = length tms" and
    tm: "\<forall>j < length js. as_TeamMember (js ! j) = Some (tms ! j)"
    by blast
  have "\<forall>j < length js. \<exists>y. Page_member (js ! j) (0 + j) = Inr y"
    using tm by (auto simp: Page_member_TeamMember)
  then obtain lis where lis: "Array_map_from 0 Page_member js = Inr lis"
    using Array_map_from_total by blast
  then have mm: "members_map (JArray js) = Inr lis"
    by (simp add: members_map_def Array_map_def)
  from Array_map_from_Inr [OF lis] have
    l: "length lis = length js" and
    each: "\<forall>j < length js. Page_member (js ! j) j = Inr (lis ! j)"
    by simp_all
  have "Page_item item i = Inr (Page_card item lis)"
    by (simp add: Page_item_def js mm)
  moreover have "\<forall>j < length tms. lis ! j =
      Element ''li'' (Some (Finite (of_nat j))) []
        [Expr (Some (JString (name (tms ! j)))), Text (str '' (''),
         Expr (Some (JString (designation (tms ! j)))),
         Text (str '') '' @ [EN_DASH] @ str '' ''),
         Expr (Some (JString (email (tms ! j))))]"
  proof (intro allI impI)
    fix j assume j: "j < length tms"
    with len tm have "as_TeamMember (js ! j) = Some (tms ! j)" by simp
    from Page_member_TeamMember [OF this, of j] each j len
    show "lis ! j =
      Element ''li'' (Some (Finite (of_nat j))) []
        [Expr (Some (JString (name (tms ! j)))), Text (str '' (''),
         Expr (Some (JString (designation (tms ! j)))),
         Text (str '') '' @ [EN_DASH] @ str '' ''),
         Expr (Some (JString (email (tms ! j))))]"
      by simp
  qed
  ultimately show ?thesis
    using member_entries_Page_card [OF mm] l len by auto
qed

lemma Page_item_lines:
  assumes "decoded_members (members item) = Some tms"
  shows "\<exists>c. Page_item item i = Inr c \<and>
           map textContent (member_entries c) =
             map (\<lambda>t. Some (name t @ str '' ('' @ designation t @ str '') '' @ [EN_DASH]
                               @ str '' '' @ email t)) tms"
proof -
  from Page_item_decoded [OF assms, of i] obtain lis where
    c: "Page_item item i = Inr (Page_card item lis)" and
    m: "member_entries (Page_card item lis) = lis" and
    len: "length lis = length tms" and
    each: "\<forall>j < length tms. lis ! j =
              Element ''li'' (Some (Finite (of_nat j))) []
                [Expr (Some (JString (name (tms ! j)))), Text (str '' (''),
                 Expr (Some (JString (designation (tms ! j)))),
                 Text (str '') '' @ [EN_DASH] @ str '' ''),
                 Expr (Some (JString (email (tms ! j))))]"
    by blast
  have "map textContent lis =
          map (\<lambda>t. Some (name t @ str '' ('' @ designation t @ str '') '' @ [EN_DASH]
                            @ str '' '' @ email t)) tms"
  proof (rule nth_equalityI)
    show "length (map textContent lis) = length (map (\<lambda>t. Some (name t @ str '' ('' @ designation t @ str '') '' @ [EN_DASH]
                            @ str '' '' @ email t)) tms)"
      using len by simp
  next
    fix j assume "j < length (map textContent lis)"
    then have j: "j < length tms" using len by simp
    with each have "textContent (lis ! j) =
        Some (name (tms ! j) @ str '' ('' @ designation (tms ! j) @ str '') '' @ [EN_DASH]
                @ str '' '' @ email (tms ! j))"
      by simp
    with j len show "map textContent lis ! j =
        map (\<lambda>t. Some (name t @ str '' ('' @ designation t @ str '') '' @ [EN_DASH]
                          @ str '' '' @ email t)) tms ! j"
      by simp
  qed
  with c m show ?thesis by auto
qed

lemma parse_empty_array: "JSON_parse (str ''[]'') = Inr (JArray [])"
  by (simp add: JSON_eval)

lemma decoded_members_empty: "decoded_members (str ''[]'') = Some []"
  by (simp add: decoded_members_def parse_empty_array)

lemma parse_Asha:
  \<open>JSON_parse (str ''[{"name":"Asha","designation":"Lead","department":"CS","city":"Pune","state":"MH","mobile":"9999999999","email":"asha@example.com"}]'') =
     Inr (JArray [JObject
       [(str ''name'', JString (str ''Asha'')), (str ''designation'', JString (str ''Lead'')),
        (str ''department'', JString (str ''CS'')), (str ''city'', JString (str ''Pune'')),
        (str ''state'', JString (str ''MH'')), (str ''mobile'', JString (str ''9999999999'')),
        (str ''email'', JString (str ''asha@example.com''))]])\<close>
  by (simp add: JSON_eval)

lemma decoded_members_Asha:
  \<open>decoded_members (str ''[{"name":"Asha","designation":"Lead","department":"CS","city":"Pune","state":"MH","mobile":"9999999999","email":"asha@example.com"}]'') =
     Some [\<lparr>name = str ''Asha'', designation = str ''Lead'', department = str ''CS'',
            city = str ''Pune'', state = str ''MH'', mobile = str ''9999999999'',
            email = str ''asha@example.com''\<rparr>]\<close>
  unfolding decoded_members_def parse_Asha
  by (simp add: as_TeamMember_def string_prop_def str_def)

section \<open>The page as a whole\<close>

lemma Page_item_example:
  "decoded_members (members example_registration) = Some [Asha]"
  unfolding example_registration_def Asha_def by (simp add: decoded_members_Asha)

lemma Page_item_example_card:
  "\<exists>c. Page_item example_registration 0 = Inr c"
  using Page_item_lines [OF Page_item_example, of 0] by blast

lemma Page_item_unlinked:
  "\<exists>c. Page_item unlinked_registration 0 = Inr c"
proof -
  have "decoded_members (members unlinked_registration) = Some []"
    by (simp add: unlinked_registration_def decoded_members_empty)
  from Page_item_lines [OF this, of 0] show ?thesis by blast
qed

lemma Page_resolved:
  assumes "network w (sent w @ [Page_request b]) = Resolved res"
  shows "Page b w =
           (if \<not> ok res then Inl (Error (str ''Failed to fetch admin data''))
            else (case json res of Inl e \<Rightarrow> Inl e | Inr data \<Rightarrow> Page_markup data),
            w\<lparr>sent := sent w @ [Page_request b]\<rparr>)"
  using assms by (simp add: Page_def fetch_def Let_def split: sum.splits)

lemma Page_payload:
  assumes "network w (sent w @ [Page_request b]) = Resolved res" and "ok res"
    and "json res = Inr data"
  shows "fst (Page b w) = Page_markup data"
  using assms by (simp add: Page_resolved)

lemma Page_markup_Inr:
  assumes "Page_markup data = Inr markup"
  shows "\<exists>cards. Array_map_from 0 Page_item (hackathon_registration data) = Inr cards \<and>
           markup = Element ''div'' None [(''className'', str ''p-6 space-y-6'')]
                    [Page_heading data, Items cards]"
  using assms unfolding Page_markup_def Array_map_def
  by (auto split: sum.splits)

lemma registration_cards_root:
  "registration_cards (Element t k ps [Page_heading data, Items cards]) = cards"
  by (simp add: registration_cards_def Page_heading_def)

lemma key_Page_item:
  assumes "Page_item item i = Inr c"
  shows "key c = Some (id' item)"
proof -
  from Page_item_Inr [OF assms] obtain lis where "c = Page_card item lis"
    by blast
  then show ?thesis by (simp add: Page_card_def)
qed

lemma no_heading_in_card:
  assumes "Page_item item i = Inr c"
  shows "filter (\<lambda>e. tag e = Some ''h1'') (elements c) = []"
proof -
  from Page_item_Inr [OF assms] obtain ms lis where
    "members_map ms = Inr lis" "c = Page_card item lis"
    by blast
  with headings_Page_card [of ms lis item] show ?thesis
    by (simp add: tagged_def)
qed

lemma headings_root:
  assumes "Array_map_from 0 Page_item regs = Inr cards"
  shows "headings (Element ''div'' None ps [Page_heading data, Items cards]) = [Page_heading data]"
proof -
  have "\<forall>c \<in> set cards. filter (\<lambda>e. tag e = Some ''h1'') (elements c) = []"
  proof
    fix c assume "c \<in> set cards"
    then obtain j where j: "j < length cards" "c = cards ! j"
      by (auto simp: in_set_conv_nth)
    with Array_map_from_Inr [OF assms] have "Page_item (regs ! j) j = Inr c"
      by simp
    then show "filter (\<lambda>e. tag e = Some ''h1'') (elements c) = []"
      by (rule no_heading_in_card)
  qed
  then have "filter (\<lambda>e. tag e = Some ''h1'') (concat (map elements cards)) = []"
    by (induction cards) simp_all
  then show ?thesis
    by (simp add: headings_def tagged_def Page_heading_def)
qed

lemma valid_snapshot_cards:
  assumes "valid_snapshot data"
  shows "\<exists>cards. Array_map_from 0 Page_item (hackathon_registration data) = Inr cards"
proof (rule Array_map_from_total, intro allI impI)
  fix j assume "j < length (hackathon_registration data)"
  with assms obtain tms where
    "decoded_members (members (hackathon_registration data ! j)) = Some tms"
    by (auto simp: valid_snapshot_def list_all_length)
  from Page_item_lines [OF this, of "0 + j"]
  show "\<exists>y. Page_item (hackathon_registration data ! j) (0 + j) = Inr y"
    by blast
qed

lemma valid_example_payload: "valid_snapshot example_payload"
  by (simp add: valid_snapshot_def example_payload_def Page_item_example
        unlinked_registration_def decoded_members_empty)

lemma JSON_parse_error: "JSON_parse text = Inl e \<Longrightarrow> e = SyntaxError"
  by (auto simp: JSON_parse_def split: option.splits)

lemma textContent_Page_heading:
  "textContent (Page_heading data) =
     map_option (\<lambda>d. str ''Admin Dashboard ('' @ d @ str '')'') (Number_toString (totalUsers data))"
  by (cases "Number_toString (totalUsers data)") (simp_all add: Page_heading_def)

lemma Number_toString_0: "Number_toString (Finite 0) = Some (str ''0'')"
  by (simp add: Number_toString.simps int_digits_def nat_digits.simps digit_char_def str_def)

lemma Number_toString_safe_integer:
  "\<bar>n\<bar> < 2 ^ 53 \<Longrightarrow> Number_toString (Finite (of_int n)) = Some (int_digits n)"
proof -
  assume "\<bar>n\<bar> < 2 ^ 53"
  then have "\<bar>rat_of_int n\<bar> < rat_of_int (2 ^ 53)"
    by (simp only: of_int_abs [symmetric] of_int_less_iff)
  then show ?thesis
    by (simp add: Number_toString.simps)
qed

lemma Number_toString_undetermined:
  "2 ^ 53 \<le> \<bar>q\<bar> \<or> q \<noteq> of_int \<lfloor>q\<rfloor> \<Longrightarrow> Number_toString (Finite q) = None"
  by (auto simp: Number_toString.simps)

lemma parse_broken: "JSON_parse (members broken_registration) = Inl SyntaxError"
  by (simp add: broken_registration_def JSON_eval)

section \<open>The claims\<close>

text \<open>
  C1. When the request is answered with a success status and a payload whose
  records all have well-formed members, the page returns markup with exactly one
  registration card per record: the cards are as many as the records, the card at
  position \<open>j\<close> is the card of the record at position \<open>j\<close>, and its key is that
  record's numeric id. The order of the payload is kept.
\<close>

theorem one_card_per_record_in_order:
  assumes "network w (sent w @ [Page_request b]) = Resolved res" and "ok res"
    and "json res = Inr data" and "valid_snapshot data"
  shows "\<exists>root. fst (Page b w) = Inr root \<and>
           length (registration_cards root) = length (hackathon_registration data) \<and>
           map key (registration_cards root) =
             map (\<lambda>item. Some (id' item)) (hackathon_registration data) \<and>
           (\<forall>j < length (hackathon_registration data).
              Page_item (hackathon_registration data ! j) j = Inr (registration_cards root ! j))"
proof -
  let ?regs = "hackathon_registration data"
  from valid_snapshot_cards [OF assms(4)] obtain cards where
    cards: "Array_map_from 0 Page_item ?regs = Inr cards"
    by blast
  define markup where
    "markup = Element ''div'' None [(''className'', str ''p-6 space-y-6'')]
              [Page_heading data, Items cards]"
  have r: "fst (Page b w) = Inr markup"
    using cards by (simp add: Page_payload [OF assms(1-3)] Page_markup_def Array_map_def markup_def)
  have rc: "registration_cards markup = cards"
    by (simp add: markup_def registration_cards_root)
  from Array_map_from_Inr [OF cards] have
    len: "length cards = length ?regs" and
    each: "\<forall>j < length ?regs. Page_item (?regs ! j) j = Inr (cards ! j)"
    by simp_all
  have "map key cards = map (\<lambda>item. Some (id' item)) ?regs"
  proof (rule nth_equalityI)
    show "length (map key cards) = length (map (\<lambda>item. Some (id' item)) ?regs)"
      using len by simp
  next
    fix j assume "j < length (map key cards)"
    then have j: "j < length ?regs" using len by simp
    with each have "Page_item (?regs ! j) j = Inr (cards ! j)" by simp
    from key_Page_item [OF this] j len
    show "map key cards ! j = map (\<lambda>item. Some (id' item)) ?regs ! j"
      by simp
  qed
  with r rc len each show ?thesis by simp
qed

theorem one_card_per_record_in_order_witness:
  "network (example_world (example_response 200))
     (sent (example_world (example_response 200)) @ [Page_request None]) =
     Resolved (example_response 200) \<and>
   ok (example_response 200) \<and>
   json (example_response 200) = Inr example_payload \<and>
   valid_snapshot example_payload \<and>
   map id' (hackathon_registration example_payload) = [Finite 7, Finite 3] \<and>
   (\<exists>root. fst (Page None (example_world (example_response 200))) = Inr root \<and>
      length (registration_cards root) = 2 \<and>
      map key (registration_cards root) = [Some (Finite 7), Some (Finite 3)])"
proof -
  let ?res = "example_response 200"
  have n: "network (example_world ?res) (sent (example_world ?res) @ [Page_request None]) = Resolved ?res"
    by (simp add: example_world_def)
  have k: "ok ?res"
    by (simp add: ok_def example_response_def)
  have j: "json ?res = Inr example_payload"
    by (simp add: example_response_def)
  have ids: "map id' (hackathon_registration example_payload) = [Finite 7, Finite 3]"
    by (simp add: example_payload_def example_registration_def unlinked_registration_def)
  then have ids': "map (\<lambda>item. Some (id' item)) (hackathon_registration example_payload) = [Some (Finite 7), Some (Finite 3)]"
    by (simp add: example_payload_def)
  have two: "length (hackathon_registration example_payload) = 2"
    by (simp add: example_payload_def)
  from one_card_per_record_in_order [OF n k j valid_example_payload]
  have "\<exists>root. fst (Page None (example_world ?res)) = Inr root \<and>
      length (registration_cards root) = 2 \<and>
      map key (registration_cards root) = [Some (Finite 7), Some (Finite 3)]"
    by (auto simp: ids' two)
  with n k j ids valid_example_payload show ?thesis
    by (simp only: simp_thms)
qed

text \<open>
  C2. When the members text of a record parses to an array of \<open>M\<close> team
  members, the card of the record has exactly \<open>M\<close> member entries, and the text
  of each is the member's name, \<^verbatim>\<open> (\<close>, the designation, \<^verbatim>\<open>) \<close>, an en dash, a
  space and the email.
\<close>

theorem member_entries_formatted:
  assumes "decoded_members (members item) = Some tms"
  shows "\<exists>c. Page_item item i = Inr c \<and>
           length (member_entries c) = length tms \<and>
           map textContent (member_entries c) =
             map (\<lambda>t. Some (name t @ str '' ('' @ designation t @ str '') '' @ [EN_DASH]
                               @ str '' '' @ email t)) tms"
proof -
  from Page_item_lines [OF assms, of i] obtain c where
    c: "Page_item item i = Inr c" and
    m: "map textContent (member_entries c) =
             map (\<lambda>t. Some (name t @ str '' ('' @ designation t @ str '') '' @ [EN_DASH]
                               @ str '' '' @ email t)) tms"
    by blast
  from m have "length (map textContent (member_entries c)) = length tms"
    by simp
  then have "length (member_entries c) = length tms"
    by simp
  with c m show ?thesis by blast
qed

theorem member_entries_formatted_witness:
  "decoded_members (members example_registration) = Some [Asha] \<and>
   (\<exists>c. Page_item example_registration 0 = Inr c \<and>
      length (member_entries c) = 1 \<and>
      map textContent (member_entries c) =
        [Some (str ''Asha (Lead) '' @ [EN_DASH] @ str '' asha@example.com'')])"
  using member_entries_formatted [OF Page_item_example, of 0] Page_item_example
  by (simp add: Asha_def str_def)

text \<open>
  C3. When the response has a status outside 200 to 299, the page throws
  \<^verbatim>\<open>Error('Failed to fetch admin data')\<close> and returns no markup at all; the error
  is the same whatever the status is, and the one request already sent is the only
  one (no retry).
\<close>

theorem failed_fetch_aborts:
  assumes "network w (sent w @ [Page_request b]) = Resolved res" and "\<not> ok res"
  shows "Page b w =
           (Inl (Error (str ''Failed to fetch admin data'')),
            w\<lparr>sent := sent w @ [Page_request b]\<rparr>)"
  using assms by (simp add: Page_resolved)

theorem failed_fetch_aborts_witness:
  "network (example_world (example_response 404))
     (sent (example_world (example_response 404)) @ [Page_request None]) =
     Resolved (example_response 404) \<and>
   \<not> ok (example_response 404) \<and>
   Page None (example_world (example_response 404)) =
     (Inl (Error (str ''Failed to fetch admin data'')),
      (example_world (example_response 404))\<lparr>sent := [Page_request None]\<rparr>) \<and>
   network (example_world (example_response 500))
     (sent (example_world (example_response 500)) @ [Page_request None]) =
     Resolved (example_response 500) \<and>
   \<not> ok (example_response 500) \<and>
   Page None (example_world (example_response 500)) =
     (Inl (Error (str ''Failed to fetch admin data'')),
      (example_world (example_response 500))\<lparr>sent := [Page_request None]\<rparr>)"
proof -
  have n: "network (example_world (example_response s))
             (sent (example_world (example_response s)) @ [Page_request None]) =
           Resolved (example_response s)" for s
    by (simp add: example_world_def)
  have k: "\<not> ok (example_response 404)" "\<not> ok (example_response 500)"
    by (simp_all add: ok_def example_response_def)
  have l: "sent (example_world (example_response s)) @ [Page_request None] = [Page_request None]" for s
    by (simp add: example_world_def)
  from failed_fetch_aborts [OF n k(1)] failed_fetch_aborts [OF n k(2)] n k
  show ?thesis
    by (simp only: l simp_thms)
qed

text \<open>
  C4. Whenever the page returns markup for a payload, its only heading has the
  children \<^verbatim>\<open>Admin Dashboard (\<close>, the number \<^verbatim>\<open>totalUsers\<close> of the payload
  itself (whatever double it is), and \<^verbatim>\<open>)\<close>; the text of the heading is
  \<^verbatim>\<open>Admin Dashboard (\<close>, that number as the language writes it, \<^verbatim>\<open>)\<close>, which
  for an integer of magnitude below \<open>2^53\<close> is its decimal expansion.
  The heading depends on \<^verbatim>\<open>totalUsers\<close> alone: two payloads with the same
  \<^verbatim>\<open>totalUsers\<close> have the same heading, whatever their records are.
\<close>

theorem heading_shows_totalUsers:
  assumes "network w (sent w @ [Page_request b]) = Resolved res" and "ok res"
    and "json res = Inr data" and "fst (Page b w) = Inr markup"
  shows "headings markup =
           [Element ''h1'' None [(''className'', str ''text-2xl font-bold'')]
              [Text (str ''Admin Dashboard (''), Num (totalUsers data), Text (str '')'')]] \<and>
         map textContent (headings markup) =
           [map_option (\<lambda>d. str ''Admin Dashboard ('' @ d @ str '')'')
              (Number_toString (totalUsers data))] \<and>
         (\<forall>n. totalUsers data = Finite (of_int n) \<longrightarrow> \<bar>n\<bar> < 2 ^ 53 \<longrightarrow>
            map textContent (headings markup) =
              [Some (str ''Admin Dashboard ('' @ int_digits n @ str '')'')]) \<and>
         (\<forall>data' root'. Page_markup data' = Inr root' \<longrightarrow> totalUsers data' = totalUsers data \<longrightarrow>
            headings root' = headings markup)"
proof -
  have h: "headings r = [Page_heading d]" if "Page_markup d = Inr r" for d r
  proof -
    from Page_markup_Inr [OF that] obtain cards where
      "Array_map_from 0 Page_item (hackathon_registration d) = Inr cards"
      "r = Element ''div'' None [(''className'', str ''p-6 space-y-6'')] [Page_heading d, Items cards]"
      by blast
    then show ?thesis by (simp add: headings_root)
  qed
  from assms have m: "Page_markup data = Inr markup"
    by (simp add: Page_payload)
  have same: "Page_heading d = Page_heading data" if "totalUsers d = totalUsers data" for d
    using that by (simp add: Page_heading_def)
  have 1: "headings markup = [Page_heading data]"
    using m by (rule h)
  have 2: "map textContent (headings markup) =
           [map_option (\<lambda>d. str ''Admin Dashboard ('' @ d @ str '')'')
              (Number_toString (totalUsers data))]"
    by (simp add: 1 textContent_Page_heading)
  have 3: "\<forall>data' root'. Page_markup data' = Inr root' \<longrightarrow> totalUsers data' = totalUsers data \<longrightarrow>
            headings root' = headings markup"
  proof (intro allI impI)
    fix data' root'
    assume a: "Page_markup data' = Inr root'" and b: "totalUsers data' = totalUsers data"
    from h [OF a] same [OF b] 1 show "headings root' = headings markup"
      by simp
  qed
  have 4: "\<forall>n. totalUsers data = Finite (of_int n) \<longrightarrow> \<bar>n\<bar> < 2 ^ 53 \<longrightarrow>
            map textContent (headings markup) =
              [Some (str ''Admin Dashboard ('' @ int_digits n @ str '')'')]"
  proof (intro allI impI)
    fix n :: int
    assume "totalUsers data = Finite (of_int n)" and "\<bar>n\<bar> < 2 ^ 53"
    then have "Number_toString (totalUsers data) = Some (int_digits n)"
      by (simp add: Number_toString_safe_integer)
    with 2 show "map textContent (headings markup) =
              [Some (str ''Admin Dashboard ('' @ int_digits n @ str '')'')]"
      by simp
  qed
  have shape: "headings markup =
           [Element ''h1'' None [(''className'', str ''text-2xl font-bold'')]
              [Text (str ''Admin Dashboard (''), Num (totalUsers data), Text (str '')'')]]"
    using 1 by (simp add: Page_heading_def)
  from shape 2 3 4 show ?thesis
    by (intro conjI)
qed

theorem heading_shows_totalUsers_witness:
  "network (example_world (example_response 200))
     (sent (example_world (example_response 200)) @ [Page_request None]) =
     Resolved (example_response 200) \<and>
   ok (example_response 200) \<and>
   json (example_response 200) = Inr example_payload \<and>
   totalUsers example_payload = Finite (of_int 42) \<and> \<bar>42 :: int\<bar> < 2 ^ 53 \<and>
   length (hackathon_registration example_payload) = 2 \<and>
   (\<exists>root root'.
      fst (Page None (example_world (example_response 200))) = Inr root \<and>
      map textContent (headings root) = [Some (str ''Admin Dashboard (42)'')] \<and>
      Page_markup \<lparr>hackathon_registration = [], totalUsers = Finite 42\<rparr> = Inr root' \<and>
      headings root' = headings root)"
proof -
  let ?res = "example_response 200"
  let ?other = "\<lparr>hackathon_registration = [], totalUsers = Finite 42\<rparr>"
  let ?root' = "Element ''div'' None [(''className'', str ''p-6 space-y-6'')]
                  [Page_heading ?other, Items []]"
  have n: "network (example_world ?res) (sent (example_world ?res) @ [Page_request None]) = Resolved ?res"
    by (simp add: example_world_def)
  have k: "ok ?res"
    by (simp add: ok_def example_response_def)
  have j: "json ?res = Inr example_payload"
    by (simp add: example_response_def)
  have t: "totalUsers example_payload = Finite (of_int 42)"
    "length (hackathon_registration example_payload) = 2"
    by (simp_all add: example_payload_def)
  have s: "\<bar>42 :: int\<bar> < 2 ^ 53"
    by simp
  have d: "int_digits 42 = str ''42''"
    by (simp add: int_digits_def nat_digits.simps digit_char_def str_def)
  from valid_snapshot_cards [OF valid_example_payload] obtain cards where
    "Array_map_from 0 Page_item (hackathon_registration example_payload) = Inr cards"
    by blast
  then obtain markup where r: "fst (Page None (example_world ?res)) = Inr markup"
    by (simp add: Page_payload [OF n k j] Page_markup_def Array_map_def)
  have o: "Page_markup ?other = Inr ?root'"
    by (simp add: Page_markup_def Array_map_def)
  have u: "totalUsers ?other = totalUsers example_payload"
    by (simp add: t)
  note h = heading_shows_totalUsers [OF n k j r]
  from h t(1) s have "map textContent (headings markup) =
      [Some (str ''Admin Dashboard ('' @ int_digits 42 @ str '')'')]"
    by blast
  then have 1: "map textContent (headings markup) = [Some (str ''Admin Dashboard (42)'')]"
    by (simp add: d str_def)
  from h o u have 2: "headings ?root' = headings markup"
    by blast
  from r 1 o 2 have "\<exists>root root'.
      fst (Page None (example_world ?res)) = Inr root \<and>
      map textContent (headings root) = [Some (str ''Admin Dashboard (42)'')] \<and>
      Page_markup ?other = Inr root' \<and> headings root' = headings root"
    by (intro exI [of _ markup] exI [of _ ?root']) (simp only: simp_thms)
  with n k j t s show ?thesis
    by (simp only: simp_thms)
qed

text \<open>
  C5. In the card of a record, each of the four link fields that is not empty has
  exactly one link with its label (PPT, Bonafide, GitHub, Demo); the target of that
  link is the stored string itself, and it opens in a new browsing context
  (\<^verbatim>\<open>target='_blank'\<close>).
\<close>

theorem links_when_present:
  assumes "Page_item item i = Inr c"
  shows "(ppt_file item \<noteq> [] \<longrightarrow>
            map (\<lambda>l. (attr ''href'' l, attr ''target'' l))
              (filter (\<lambda>l. textContent l = Some (str ''PPT'')) (links c)) =
            [(Some (ppt_file item), Some (str ''_blank''))]) \<and>
         (bonafide_file item \<noteq> [] \<longrightarrow>
            map (\<lambda>l. (attr ''href'' l, attr ''target'' l))
              (filter (\<lambda>l. textContent l = Some (str ''Bonafide'')) (links c)) =
            [(Some (bonafide_file item), Some (str ''_blank''))]) \<and>
         (github_repo_link item \<noteq> [] \<longrightarrow>
            map (\<lambda>l. (attr ''href'' l, attr ''target'' l))
              (filter (\<lambda>l. textContent l = Some (str ''GitHub'')) (links c)) =
            [(Some (github_repo_link item), Some (str ''_blank''))]) \<and>
         (demo_video_url item \<noteq> [] \<longrightarrow>
            map (\<lambda>l. (attr ''href'' l, attr ''target'' l))
              (filter (\<lambda>l. textContent l = Some (str ''Demo'')) (links c)) =
            [(Some (demo_video_url item), Some (str ''_blank''))])"
proof -
  from Page_item_Inr [OF assms] obtain ms lis where
    "members_map ms = Inr lis" and "c = Page_card item lis"
    by blast
  then have "links c =
           [Element ''a'' None [(''href'', ppt_file item), (''target'', str ''_blank'')]
              [Text (str ''PPT'')],
            Element ''a'' None [(''href'', bonafide_file item), (''target'', str ''_blank'')]
              [Text (str ''Bonafide'')],
            Element ''a'' None [(''href'', github_repo_link item), (''target'', str ''_blank'')]
              [Text (str ''GitHub'')],
            Element ''a'' None [(''href'', demo_video_url item), (''target'', str ''_blank'')]
              [Text (str ''Demo'')]]"
    by (simp add: links_Page_card)
  then show ?thesis
    by (simp add: str_def)
qed

theorem links_when_present_witness:
  "\<exists>c. Page_item example_registration 0 = Inr c \<and>
     map (\<lambda>l. (attr ''href'' l, attr ''target'' l))
       (filter (\<lambda>l. textContent l = Some (str ''PPT'')) (links c)) =
       [(Some (str ''/files/p7.pptx''), Some (str ''_blank''))] \<and>
     map (\<lambda>l. (attr ''href'' l, attr ''target'' l))
       (filter (\<lambda>l. textContent l = Some (str ''Bonafide'')) (links c)) =
       [(Some (str ''/files/b7.pdf''), Some (str ''_blank''))] \<and>
     map (\<lambda>l. (attr ''href'' l, attr ''target'' l))
       (filter (\<lambda>l. textContent l = Some (str ''GitHub'')) (links c)) =
       [(Some (str ''https://git.example/7''), Some (str ''_blank''))] \<and>
     map (\<lambda>l. (attr ''href'' l, attr ''target'' l))
       (filter (\<lambda>l. textContent l = Some (str ''Demo'')) (links c)) =
       [(Some (str ''https://video.example/7''), Some (str ''_blank''))]"
proof -
  from Page_item_example_card obtain c where c: "Page_item example_registration 0 = Inr c"
    by blast
  have ne: "str ''/files/p7.pptx'' \<noteq> []" "str ''/files/b7.pdf'' \<noteq> []"
    "str ''https://git.example/7'' \<noteq> []" "str ''https://video.example/7'' \<noteq> []"
    by (simp_all add: str_def)
  have f: "ppt_file example_registration = str ''/files/p7.pptx''"
    "bonafide_file example_registration = str ''/files/b7.pdf''"
    "github_repo_link example_registration = str ''https://git.example/7''"
    "demo_video_url example_registration = str ''https://video.example/7''"
    by (simp_all add: example_registration_def)
  from links_when_present [OF c, unfolded f] ne c show ?thesis
    by (intro exI [of _ c]) simp
qed

text \<open>
  C6. When some record of the payload has a members text that does not parse, the
  page returns no markup: it throws. When the records before it are well-formed, the
  error thrown is the \<^verbatim>\<open>SyntaxError\<close> of \<^verbatim>\<open>JSON.parse\<close>. The record is not
  skipped and no card is rendered for it.
\<close>

theorem malformed_members_abort:
  assumes "network w (sent w @ [Page_request b]) = Resolved res" and "ok res"
    and "json res = Inr data"
    and "hackathon_registration data = pre @ item # post"
    and "JSON_parse (members item) = Inl e"
  shows "(\<exists>e'. fst (Page b w) = Inl e') \<and>
         (list_all (\<lambda>p. decoded_members (members p) \<noteq> None) pre \<longrightarrow>
            fst (Page b w) = Inl SyntaxError)"
proof -
  have e: "e = SyntaxError"
    using assms(5) by (rule JSON_parse_error)
  have bad: "Page_item item (0 + length pre) = Inl SyntaxError"
    using assms(5) e by (simp add: Page_item_def)
  have p: "fst (Page b w) =
             (case Array_map_from 0 Page_item (pre @ item # post) of
                Inl e \<Rightarrow> Inl e
              | Inr cards \<Rightarrow>
                  Inr (Element ''div'' None [(''className'', str ''p-6 space-y-6'')]
                        [Page_heading data, Items cards]))"
    by (simp add: Page_payload [OF assms(1-3)] Page_markup_def Array_map_def assms(4))
  have "length pre < length (pre @ item # post)"
    by simp
  moreover have "Page_item ((pre @ item # post) ! length pre) (0 + length pre) = Inl SyntaxError"
    using bad by simp
  ultimately obtain e' where "Array_map_from 0 Page_item (pre @ item # post) = Inl e'"
    using Array_map_from_failure by blast
  then have 1: "\<exists>e'. fst (Page b w) = Inl e'"
    by (simp add: p)
  have 2: "fst (Page b w) = Inl SyntaxError"
    if v: "list_all (\<lambda>p. decoded_members (members p) \<noteq> None) pre"
  proof -
    have "\<forall>j < length pre. \<exists>y. Page_item (pre ! j) (0 + j) = Inr y"
    proof (intro allI impI)
      fix j assume "j < length pre"
      with v obtain tms where "decoded_members (members (pre ! j)) = Some tms"
        by (auto simp: list_all_length)
      from Page_item_lines [OF this, of "0 + j"]
      show "\<exists>y. Page_item (pre ! j) (0 + j) = Inr y" by blast
    qed
    then have "Array_map_from 0 Page_item (pre @ item # post) = Inl SyntaxError"
      using bad by (rule Array_map_from_first_failure)
    then show ?thesis by (simp add: p)
  qed
  from 1 2 show ?thesis by simp
qed

theorem malformed_members_abort_witness:
  "network (example_world \<lparr>status = 200, json = Inr broken_payload\<rparr>)
     (sent (example_world \<lparr>status = 200, json = Inr broken_payload\<rparr>) @ [Page_request None]) =
     Resolved \<lparr>status = 200, json = Inr broken_payload\<rparr> \<and>
   ok \<lparr>status = 200, json = Inr broken_payload\<rparr> \<and>
   hackathon_registration broken_payload =
     [example_registration] @ broken_registration # [unlinked_registration] \<and>
   JSON_parse (members broken_registration) = Inl SyntaxError \<and>
   list_all (\<lambda>p. decoded_members (members p) \<noteq> None) [example_registration] \<and>
   fst (Page None (example_world \<lparr>status = 200, json = Inr broken_payload\<rparr>)) = Inl SyntaxError"
proof -
  let ?res = "\<lparr>status = 200, json = Inr broken_payload\<rparr>"
  have n: "network (example_world ?res) (sent (example_world ?res) @ [Page_request None]) = Resolved ?res"
    by (simp add: example_world_def)
  have k: "ok ?res" by (simp add: ok_def)
  have j: "json ?res = Inr broken_payload" by simp
  have s: "hackathon_registration broken_payload =
     [example_registration] @ broken_registration # [unlinked_registration]"
    by (simp add: broken_payload_def)
  have v: "list_all (\<lambda>p. decoded_members (members p) \<noteq> None) [example_registration]"
    by (simp add: Page_item_example)
  from malformed_members_abort [OF n k j s parse_broken] v
  have "fst (Page None (example_world ?res)) = Inl SyntaxError"
    by simp
  with n k s v parse_broken show ?thesis by simp
qed

text \<open>
  C7. The record whose members text is the one-member array of the specification's
  round-trip scenario (name Asha, designation Lead, email asha@example.com) has a
  card with exactly one member entry, and its text is
  \<^verbatim>\<open>Asha (Lead) \<close>, an en dash, \<^verbatim>\<open> asha@example.com\<close>.
\<close>

theorem Asha_one_member_line:
  \<open>\<exists>c. Page_item (item\<lparr>members := str ''[{"name":"Asha","designation":"Lead","department":"CS","city":"Pune","state":"MH","mobile":"9999999999","email":"asha@example.com"}]''\<rparr>) i = Inr c \<and>
     map textContent (member_entries c) =
       [Some (str ''Asha (Lead) '' @ [EN_DASH] @ str '' asha@example.com'')]\<close>
proof -
  let ?item = \<open>item\<lparr>members := str ''[{"name":"Asha","designation":"Lead","department":"CS","city":"Pune","state":"MH","mobile":"9999999999","email":"asha@example.com"}]''\<rparr>\<close>
  have \<open>decoded_members (members ?item) =
     Some [\<lparr>name = str ''Asha'', designation = str ''Lead'', department = str ''CS'',
            city = str ''Pune'', state = str ''MH'', mobile = str ''9999999999'',
            email = str ''asha@example.com''\<rparr>]\<close>
    by (simp add: decoded_members_Asha)
  from Page_item_lines [OF this, of i] show ?thesis
    by (simp add: str_def)
qed

text \<open>
  C8. For the payload with no registration and \<^verbatim>\<open>totalUsers\<close> 0, the page
  returns markup whose heading reads \<^verbatim>\<open>Admin Dashboard (0)\<close> and which has no
  registration card.
\<close>

theorem empty_snapshot:
  assumes "network w (sent w @ [Page_request b]) = Resolved res" and "ok res"
    and "json res = Inr \<lparr>hackathon_registration = [], totalUsers = Finite 0\<rparr>"
  shows "\<exists>root. fst (Page b w) = Inr root \<and>
           map textContent (headings root) = [Some (str ''Admin Dashboard (0)'')] \<and>
           registration_cards root = []"
proof -
  let ?data = "\<lparr>hackathon_registration = [], totalUsers = Finite 0\<rparr>"
  let ?root = "Element ''div'' None [(''className'', str ''p-6 space-y-6'')]
                 [Page_heading ?data, Items []]"
  have r: "fst (Page b w) = Inr ?root"
    by (simp add: Page_payload [OF assms] Page_markup_def Array_map_def)
  have "Array_map_from 0 Page_item [] = Inr []"
    by simp
  then have "headings ?root = [Page_heading ?data]"
    by (rule headings_root)
  then have "map textContent (headings ?root) = [Some (str ''Admin Dashboard (0)'')]"
    by (simp add: textContent_Page_heading Number_toString_0 str_def)
  moreover have "registration_cards ?root = []"
    by (simp add: registration_cards_root)
  ultimately show ?thesis
    using r by (intro exI [of _ ?root]) simp
qed

theorem empty_snapshot_witness:
  "network (example_world \<lparr>status = 200, json = Inr \<lparr>hackathon_registration = [], totalUsers = Finite 0\<rparr>\<rparr>)
     (sent (example_world \<lparr>status = 200, json = Inr \<lparr>hackathon_registration = [], totalUsers = Finite 0\<rparr>\<rparr>)
        @ [Page_request (Some (str ''http://localhost:8000''))]) =
     Resolved \<lparr>status = 200, json = Inr \<lparr>hackathon_registration = [], totalUsers = Finite 0\<rparr>\<rparr> \<and>
   ok \<lparr>status = 200, json = Inr \<lparr>hackathon_registration = [], totalUsers = Finite 0\<rparr>\<rparr> \<and>
   (\<exists>root. fst (Page (Some (str ''http://localhost:8000''))
                 (example_world \<lparr>status = 200, json = Inr \<lparr>hackathon_registration = [], totalUsers = Finite 0\<rparr>\<rparr>))
              = Inr root \<and>
      map textContent (headings root) = [Some (str ''Admin Dashboard (0)'')] \<and>
      registration_cards root = [])"
proof -
  let ?res = "\<lparr>status = 200, json = Inr \<lparr>hackathon_registration = [], totalUsers = Finite 0\<rparr>\<rparr>"
  let ?b = "Some (str ''http://localhost:8000'')"
  have n: "network (example_world ?res) (sent (example_world ?res) @ [Page_request ?b]) = Resolved ?res"
    by (simp add: example_world_def)
  have k: "ok ?res" by (simp add: ok_def)
  have j: "json ?res = Inr \<lparr>hackathon_registration = [], totalUsers = Finite 0\<rparr>" by simp
  from empty_snapshot [OF n k j] n k show ?thesis by simp
qed

text \<open>
  C9. The card of a record has exactly four links, labelled PPT, Bonafide, GitHub
  and Demo in this order, whatever the link fields hold: the target of each is the
  stored string, also when it is empty.
\<close>

theorem links_always_rendered:
  assumes "Page_item item i = Inr c"
  shows "map (\<lambda>l. (textContent l, attr ''href'' l, attr ''target'' l)) (links c) =
           [(Some (str ''PPT''), Some (ppt_file item), Some (str ''_blank'')),
            (Some (str ''Bonafide''), Some (bonafide_file item), Some (str ''_blank'')),
            (Some (str ''GitHub''), Some (github_repo_link item), Some (str ''_blank'')),
            (Some (str ''Demo''), Some (demo_video_url item), Some (str ''_blank''))]"
proof -
  from Page_item_Inr [OF assms] obtain ms lis where
    "members_map ms = Inr lis" and "c = Page_card item lis"
    by blast
  then show ?thesis
    by (simp add: links_Page_card)
qed

theorem links_always_rendered_witness:
  "\<exists>c. Page_item unlinked_registration 0 = Inr c \<and>
     map (\<lambda>l. (textContent l, attr ''href'' l, attr ''target'' l)) (links c) =
       [(Some (str ''PPT''), Some [], Some (str ''_blank'')),
        (Some (str ''Bonafide''), Some [], Some (str ''_blank'')),
        (Some (str ''GitHub''), Some [], Some (str ''_blank'')),
        (Some (str ''Demo''), Some [], Some (str ''_blank''))]"
proof -
  from Page_item_unlinked obtain c where c: "Page_item unlinked_registration 0 = Inr c"
    by blast
  from links_always_rendered [OF c] c show ?thesis
    by (auto simp: unlinked_registration_def)
qed

text \<open>
  C10. When the members text of a record parses to an array of team members, the
  Size field of the card shows the record's \<^verbatim>\<open>team_size\<close> itself and the card has
  one entry per parsed member; nothing relates the two numbers, and the card is
  rendered also when they differ.
\<close>

theorem size_shown_unchecked:
  assumes "decoded_members (members item) = Some tms"
  shows "\<exists>c. Page_item item i = Inr c \<and>
           summary_field (str ''Size:'') c = [[Text (str '' ''), Num (team_size item)]] \<and>
           length (member_entries c) = length tms"
proof -
  from Page_item_decoded [OF assms, of i] obtain lis where
    c: "Page_item item i = Inr (Page_card item lis)" and
    m: "member_entries (Page_card item lis) = lis" and
    len: "length lis = length tms"
    by blast
  from Page_item_Inr [OF c] obtain ms lis' where
    "members_map ms = Inr lis'" "Page_card item lis = Page_card item lis'"
    by blast
  then have "summary_field (str ''Size:'') (Page_card item lis) =
               [[Text (str '' ''), Num (team_size item)]]"
    by (simp add: summary_Size_Page_card)
  with c m len show ?thesis by simp
qed

theorem size_shown_unchecked_witness:
  "decoded_members (members example_registration) = Some [Asha] \<and>
   team_size example_registration = Finite 3 \<and>
   (\<exists>c. Page_item example_registration 0 = Inr c \<and>
      summary_field (str ''Size:'') c = [[Text (str '' ''), Num (Finite 3)]] \<and>
      length (member_entries c) = 1)"
  using size_shown_unchecked [OF Page_item_example, of 0] Page_item_example
  by (simp add: example_registration_def)

end
